theory Spec2Isabelle
  imports Main
begin

section \<open>JavaScript values and the heap\<close>

text \<open>
  The module \<open>index.js\<close> is dynamically typed: its functions probe their arguments with
  \<open>typeof\<close>, \<open>instanceof\<close>, truthiness and property reads. Values are therefore a
  datatype; objects are references into a heap, so that "the same object" is equality of
  references. \<open>JExpectedNode node\<close> is the object made by
  \<open>new Error('Expected node, got ' + node)\<close>; \<open>JTypeError\<close> is the error the
  engine raises when a property of \<open>undefined\<close> is read.
\<close>

type_synonym addr = nat

datatype jsval =
    JUndefined
  | JNull
  | JBool bool
  | JNum int
  | JStr string
  | JFunc nat
  | JObj addr
  | JFile addr
  | JProc addr
  | JExpectedNode jsval
  | JTypeError

fun truthy :: "jsval \<Rightarrow> bool" where
  "truthy JUndefined = False"
| "truthy JNull = False"
| "truthy (JBool b) = b"
| "truthy (JNum n) = (n \<noteq> 0)"
| "truthy (JStr s) = (s \<noteq> [])"
| "truthy _ = True"

text \<open>\<open>typeof v === 'function'\<close>, \<open>typeof v === 'string'\<close>, \<open>v instanceof VFile\<close>.\<close>

fun is_function :: "jsval \<Rightarrow> bool" where
  "is_function (JFunc k) = True"
| "is_function _ = False"

fun is_string :: "jsval \<Rightarrow> bool" where
  "is_string (JStr s) = True"
| "is_string _ = False"

fun is_VFile :: "jsval \<Rightarrow> bool" where
  "is_VFile (JFile a) = True"
| "is_VFile _ = False"

text \<open>
  A carrier file holds its contents and, per namespace key, the \<open>tree\<close> field of the bag
  that \<open>file.namespace(key)\<close> returns (\<open>JUndefined\<close> while nothing is attached).
\<close>

record vfile =
  contents :: jsval
  spaces :: "string \<Rightarrow> jsval"

record fstore =
  files :: "addr \<Rightarrow> vfile"
  next_file :: addr
  objs :: "addr \<Rightarrow> string \<Rightarrow> jsval"
  next_obj :: addr

text \<open>Reading a property: only plain objects carry the properties probed here.\<close>

fun get_prop :: "fstore \<Rightarrow> jsval \<Rightarrow> string \<Rightarrow> jsval" where
  "get_prop \<sigma> (JObj a) k = objs \<sigma> a k"
| "get_prop \<sigma> _ k = JUndefined"

definition tree_slot :: "fstore \<Rightarrow> addr \<Rightarrow> string \<Rightarrow> jsval" where
  "tree_slot \<sigma> f key = spaces (files \<sigma> f) key"

definition set_tree_slot :: "fstore \<Rightarrow> addr \<Rightarrow> string \<Rightarrow> jsval \<Rightarrow> fstore" where
  "set_tree_slot \<sigma> f key v =
     \<sigma>\<lparr>files := (files \<sigma>)(f := (files \<sigma> f)\<lparr>spaces := (spaces (files \<sigma> f))(key := v)\<rparr>)\<rparr>"

text \<open>
  Modelled from the spec: the carrier file (package \<open>vfile\<close>, a dependency, not under
  src/). \<open>new VFile(options)\<close> hands a carrier file back as it is, which is what lets two
  calls on "the same file" share one namespace slot; a string becomes the contents of a
  fresh file, an absent value gives a fresh empty file, any other value gives a fresh file
  whose contents are its \<open>contents\<close> property when that is truthy.
\<close>

definition new_VFile :: "jsval \<Rightarrow> fstore \<Rightarrow> addr \<times> fstore" where
  "new_VFile options \<sigma> =
     (case options of
        JFile a \<Rightarrow> (a, \<sigma>)
      | _ \<Rightarrow>
          (let c = (if \<not> truthy options then JStr []
                    else if is_string options then options
                    else if truthy (get_prop \<sigma> options ''contents'')
                      then get_prop \<sigma> options ''contents'' else JStr []);
               a = next_file \<sigma>
           in (a, \<sigma>\<lparr>files := (files \<sigma>)(a := \<lparr>contents = c, spaces = (\<lambda>k. JUndefined)\<rparr>),
                     next_file := Suc a\<rparr>)))"

text \<open>The object literal \<open>{}\<close>.\<close>

definition new_object :: "fstore \<Rightarrow> jsval \<times> fstore" where
  "new_object \<sigma> =
     (JObj (next_obj \<sigma>),
      \<sigma>\<lparr>objs := (objs \<sigma>)(next_obj \<sigma> := (\<lambda>k. JUndefined)), next_obj := Suc (next_obj \<sigma>)\<rparr>)"

section \<open>Collaborators: transformers, Parser, Compiler\<close>

datatype 'a promise = Resolved 'a | Rejected jsval | Pending

datatype 'a result = Returned 'a | Threw jsval

text \<open>
  What a transformer does with its continuation: it returns or calls it with nothing
  (\<open>Continue\<close>), it reports an error (\<open>Fail\<close>), or it never completes (\<open>Hang\<close>). It is
  handed the tree and the file and may change the heap.
\<close>

datatype step = Continue | Fail jsval | Hang

record transformer =
  t_id :: nat
  t_fn :: "jsval \<Rightarrow> jsval \<Rightarrow> fstore \<Rightarrow> step \<times> fstore"

text \<open>
  A Parser class is built with \<open>(file, settings, processor)\<close> and its \<open>parse()\<close> gives a
  promise; a Compiler class likewise, with a synchronous \<open>compile()\<close>.
\<close>

record parser_class =
  pc_id :: nat
  pc_parse :: "jsval \<Rightarrow> jsval \<Rightarrow> jsval \<Rightarrow> fstore \<Rightarrow> jsval promise \<times> fstore"

record compiler_class =
  cc_id :: nat
  cc_compile :: "jsval \<Rightarrow> jsval \<Rightarrow> jsval \<Rightarrow> fstore \<Rightarrow> jsval result \<times> fstore"

text \<open>The default metadata payload, a value without sharing.\<close>

datatype jdata = DNull | DVal jsval | DObj "(string \<times> jdata) list"

fun jdata_truthy :: "jdata \<Rightarrow> bool" where
  "jdata_truthy DNull = False"
| "jdata_truthy (DVal v) = truthy v"
| "jdata_truthy (DObj kvs) = True"

text \<open>
  Modelled from the spec: \<open>extend(true, {}, d)\<close> (package \<open>extend\<close>), the deep copy of a
  payload into a new object; a payload that is not an object contributes no key.
\<close>

definition extend_deep :: "jdata \<Rightarrow> jdata" where
  "extend_deep d = (case d of DObj kvs \<Rightarrow> DObj kvs | _ \<Rightarrow> DObj [])"

section \<open>The factory \<open>unified(options)\<close> and the Processor\<close>

record options =
  name :: string
  opt_Parser :: parser_class
  opt_Compiler :: compiler_class
  opt_data :: jdata

text \<open>
  \<open>self.ware\<close>: the registry of one instance. Modelled from the spec: the ordered runner
  (packages \<open>ware\<close> and \<open>attach-ware\<close>, dependencies, not under src/) holds an ordered
  sequence of transformers and the instance as execution context.
\<close>

record attach_ware =
  fns :: "transformer list"
  ware_context :: jsval

record processor =
  ware :: attach_ware
  Parser :: parser_class
  Compiler :: compiler_class
  data :: jdata

text \<open>
  The observable order of collaborator calls is kept in \<open>trace\<close>: which transformer ran,
  which Parser class parsed, which Compiler class compiled.
\<close>

datatype event = Transformed nat | Parsed nat | Compiled nat

record state =
  store :: fstore
  procs :: "addr \<Rightarrow> processor"
  next_proc :: addr
  next_class :: nat
  trace :: "event list"

text \<open>
  The receiver \<open>this\<close> of a method: absent (the file is in strict mode, so a detached call
  sees \<open>undefined\<close>), the family class \<open>Processor\<close> itself (the methods are its statics),
  or an instance.
\<close>

datatype receiver = RUndefined | RClass | RInst addr

text \<open>\<open>this instanceof Processor\<close>.\<close>

fun instanceof_Processor :: "receiver \<Rightarrow> bool" where
  "instanceof_Processor (RInst a) = True"
| "instanceof_Processor _ = False"

text \<open>
  Modelled from the spec: the Subclass Deriver (package \<open>unherit\<close>) returns a new
  constructor, independent of the one it is given, with the same behaviour.
\<close>

definition unherit_Parser :: "parser_class \<Rightarrow> state \<Rightarrow> parser_class \<times> state" where
  "unherit_Parser P st = (P\<lparr>pc_id := next_class st\<rparr>, st\<lparr>next_class := Suc (next_class st)\<rparr>)"

definition unherit_Compiler :: "compiler_class \<Rightarrow> state \<Rightarrow> compiler_class \<times> state" where
  "unherit_Compiler C st = (C\<lparr>cc_id := next_class st\<rparr>, st\<lparr>next_class := Suc (next_class st)\<rparr>)"

text \<open>\<open>Processor.data = proto.data = data || null\<close>.\<close>

definition proto_data :: "options \<Rightarrow> jdata" where
  "proto_data opts = (if jdata_truthy (opt_data opts) then opt_data opts else DNull)"

text \<open>
  The body of \<open>Processor\<close> once \<open>self\<close> is an instance (lines 72 to 80); \<open>d\<close> is what
  \<open>self.data\<close> reads there: the prototype's payload for a new object, its own for an
  existing one.
\<close>

definition construct :: "options \<Rightarrow> addr \<Rightarrow> jdata \<Rightarrow> state \<Rightarrow> state" where
  "construct opts self d st =
     (case unherit_Parser (opt_Parser opts) st of (P, st1) \<Rightarrow>
      case unherit_Compiler (opt_Compiler opts) st1 of (C, st2) \<Rightarrow>
        st2\<lparr>procs := (procs st2)(self :=
          \<lparr>ware = \<lparr>fns = [], ware_context = JProc self\<rparr>,
           Parser = P, Compiler = C,
           data = (if jdata_truthy d then extend_deep d else d)\<rparr>)\<rparr>)"

text \<open>\<open>new Processor(processor)\<close>: the argument is not read.\<close>

definition new_Processor :: "options \<Rightarrow> jsval \<Rightarrow> state \<Rightarrow> addr \<times> state" where
  "new_Processor opts processor st =
     (next_proc st, construct opts (next_proc st) (proto_data opts)
                      (st\<lparr>next_proc := Suc (next_proc st)\<rparr>))"

text \<open>
  \<open>Processor(processor)\<close> called as a plain function on a receiver: a receiver that is
  not an instance constructs a new one; an instance as receiver runs the body on itself,
  and the call has no value.
\<close>

definition Processor :: "options \<Rightarrow> receiver \<Rightarrow> jsval \<Rightarrow> state \<Rightarrow> jsval \<times> state" where
  "Processor opts this processor st =
     (case this of
        RInst a \<Rightarrow> (JUndefined, construct opts a (data (procs st a)) st)
      | _ \<Rightarrow> (case new_Processor opts processor st of (a, st') \<Rightarrow> (JProc a, st')))"

text \<open>\<open>instance(context)\<close>, lines 93 to 95.\<close>

definition instance_of :: "options \<Rightarrow> receiver \<Rightarrow> state \<Rightarrow> addr \<times> state" where
  "instance_of opts context st =
     (case context of
        RInst a \<Rightarrow> (a, st)
      | _ \<Rightarrow> new_Processor opts JUndefined st)"

text \<open>
  Modelled from the spec: \<open>ware.use\<close> registers the transformer at the end of the
  registry.
\<close>

definition ware_use :: "addr \<Rightarrow> transformer \<Rightarrow> state \<Rightarrow> state" where
  "ware_use self t st =
     st\<lparr>procs := (procs st)(self :=
        (procs st self)\<lparr>ware := (ware (procs st self))\<lparr>fns := fns (ware (procs st self)) @ [t]\<rparr>\<rparr>)\<rparr>"

text \<open>\<open>use\<close>, lines 105 to 111.\<close>

definition use :: "options \<Rightarrow> receiver \<Rightarrow> transformer \<Rightarrow> state \<Rightarrow> addr \<times> state" where
  "use opts this t st =
     (case instance_of opts this st of (self, st1) \<Rightarrow> (self, ware_use self t st1))"

section \<open>Transform: \<open>run\<close>\<close>

text \<open>What a callback is called with: \<open>done(err)\<close> or \<open>done(null, node, file)\<close>.\<close>

datatype cb_args = CbError jsval | CbDone jsval jsval

text \<open>
  Modelled from the spec: \<open>ware.run\<close> calls each transformer in turn with the tree and
  the file, stops at the first error and reports it, and reports completion after the
  last one; \<open>None\<close> is a run whose callback is never reached.
\<close>

fun ware_run :: "transformer list \<Rightarrow> jsval \<Rightarrow> jsval \<Rightarrow> state \<Rightarrow> cb_args option \<times> state" where
  "ware_run [] node file st = (Some (CbDone node file), st)"
| "ware_run (t # ts) node file st =
     (case t_fn t node file (store st) of (r, \<sigma>) \<Rightarrow>
        (case r of
           Continue \<Rightarrow>
             ware_run ts node file (st\<lparr>store := \<sigma>, trace := trace st @ [Transformed (t_id t)]\<rparr>)
         | Fail e \<Rightarrow>
             if truthy e
             then (Some (CbError e), st\<lparr>store := \<sigma>, trace := trace st @ [Transformed (t_id t)]\<rparr>)
             else ware_run ts node file
                    (st\<lparr>store := \<sigma>, trace := trace st @ [Transformed (t_id t)]\<rparr>)
         | Hang \<Rightarrow> (None, st\<lparr>store := \<sigma>, trace := trace st @ [Transformed (t_id t)]\<rparr>)))"

text \<open>
  Lines 132 to 144 of \<open>run\<close>, and the same lines 216 to 228 of \<open>stringify\<close>: the first
  argument is taken as the file when no file is given and it has no \<open>type\<close>; the file is
  normalised; the tree is the argument, which fills an empty slot, or else the slot's.
  The result is the resolved node, the file and the heap.
\<close>

definition resolve_node :: "string \<Rightarrow> jsval \<Rightarrow> jsval \<Rightarrow> fstore \<Rightarrow> jsval \<times> addr \<times> fstore" where
  "resolve_node key node file \<sigma> =
     (case (if \<not> truthy file \<and> truthy node \<and> \<not> truthy (get_prop \<sigma> node ''type'')
            then (JNull, node) else (node, file)) of (node1, file1) \<Rightarrow>
      case new_VFile file1 \<sigma> of (f, \<sigma>1) \<Rightarrow>
        if \<not> truthy node1
        then ((if truthy (tree_slot \<sigma>1 f key) then tree_slot \<sigma>1 f key else node1), f, \<sigma>1)
        else if \<not> truthy (tree_slot \<sigma>1 f key)
        then (node1, f, set_tree_slot \<sigma>1 f key node1)
        else (node1, f, \<sigma>1))"

text \<open>
  Calling \<open>done\<close>, which is the callback given or else \<open>bail\<close> (package \<open>bail\<close>: it throws
  the error it is given). The second component records what a given callback was called
  with.
\<close>

definition call_done :: "jsval \<Rightarrow> cb_args option \<Rightarrow> jsval \<Rightarrow> jsval result \<times> cb_args option" where
  "call_done done c node =
     (if is_function done then (Returned node, c)
      else (case c of
              Some (CbError e) \<Rightarrow> (if truthy e then (Threw e, None) else (Returned node, None))
            | _ \<Rightarrow> (Returned node, None)))"

text \<open>Lines 127 to 130 of \<open>run\<close>: a function in the place of the file is the callback.\<close>

definition run_args :: "jsval \<Rightarrow> jsval \<Rightarrow> jsval \<times> jsval" where
  "run_args file done = (if is_function file then (JNull, file) else (file, done))"

text \<open>
  \<open>run\<close>, lines 123 to 164. The receiver is used as it is: at line 157 an instance has
  its registry, whose list of functions is truthy even when empty; the family class has no
  \<open>ware\<close> property, so \<open>done\<close> is called at once; reading \<open>ware\<close> of an absent
  receiver throws.
\<close>

definition run ::
  "options \<Rightarrow> receiver \<Rightarrow> jsval \<Rightarrow> jsval \<Rightarrow> jsval \<Rightarrow> state
    \<Rightarrow> (jsval result \<times> cb_args option) \<times> state" where
  "run opts this node file done st =
     (case run_args file done of (file1, done1) \<Rightarrow>
      case resolve_node (name opts) node file1 (store st) of (node1, f, \<sigma>) \<Rightarrow>
        if \<not> truthy node1 then ((Threw (JExpectedNode node1), None), st\<lparr>store := \<sigma>\<rparr>)
        else (case this of
                RUndefined \<Rightarrow> ((Threw JTypeError, None), st\<lparr>store := \<sigma>\<rparr>)
              | RClass \<Rightarrow>
                  (call_done done1 (Some (CbDone node1 (JFile f))) node1, st\<lparr>store := \<sigma>\<rparr>)
              | RInst a \<Rightarrow>
                  (case ware_run (fns (ware (procs st a))) node1 (JFile f) (st\<lparr>store := \<sigma>\<rparr>) of
                     (c, st1) \<Rightarrow> (call_done done1 c node1, st1))))"

section \<open>Parse and stringify\<close>

record parser_obj =
  po_class :: parser_class
  po_file :: jsval
  po_settings :: jsval
  po_proc :: jsval

text \<open>\<open>createParser\<close>, lines 166 to 170.\<close>

definition createParser ::
  "options \<Rightarrow> receiver \<Rightarrow> jsval \<Rightarrow> jsval \<Rightarrow> state \<Rightarrow> parser_obj \<times> state" where
  "createParser opts this v settings st =
     (case new_VFile v (store st) of (f, \<sigma>) \<Rightarrow>
      case instance_of opts this (st\<lparr>store := \<sigma>\<rparr>) of (self, st1) \<Rightarrow>
        (\<lparr>po_class = (case this of RInst a \<Rightarrow> Parser (procs st a) | _ \<Rightarrow> opt_Parser opts),
          po_file = JFile f, po_settings = settings, po_proc = JProc self\<rparr>, st1))"

text \<open>
  \<open>parse\<close>, lines 184 to 192. Reading \<open>this.createParser\<close> of an absent receiver throws
  before any promise exists.
\<close>

definition parse ::
  "options \<Rightarrow> receiver \<Rightarrow> jsval \<Rightarrow> jsval \<Rightarrow> state \<Rightarrow> jsval promise result \<times> state" where
  "parse opts this v settings st =
     (case new_VFile v (store st) of (f, \<sigma>) \<Rightarrow>
        (case this of
           RUndefined \<Rightarrow> (Threw JTypeError, st\<lparr>store := \<sigma>\<rparr>)
         | _ \<Rightarrow>
           (case createParser opts this (JFile f) settings (st\<lparr>store := \<sigma>\<rparr>) of (p, st1) \<Rightarrow>
            case pc_parse (po_class p) (po_file p) (po_settings p) (po_proc p) (store st1) of
              (r, \<sigma>1) \<Rightarrow>
                (case r of
                   Resolved node \<Rightarrow>
                     (Returned (Resolved node),
                      st1\<lparr>store := set_tree_slot \<sigma>1 f (name opts) node,
                          trace := trace st1 @ [Parsed (pc_id (po_class p))]\<rparr>)
                 | Rejected e \<Rightarrow>
                     (Returned (Rejected e),
                      st1\<lparr>store := \<sigma>1, trace := trace st1 @ [Parsed (pc_id (po_class p))]\<rparr>)
                 | Pending \<Rightarrow>
                     (Returned Pending,
                      st1\<lparr>store := \<sigma>1, trace := trace st1 @ [Parsed (pc_id (po_class p))]\<rparr>)))))"

text \<open>
  \<open>stringify\<close>, lines 207 to 235. Without settings the second argument is the
  settings and there is no file (lines 211 to 214). The Compiler class is the receiver's
  own when the receiver has one, else the family's; the instance handed to it is made
  only after the tree has resolved.
\<close>

definition stringify ::
  "options \<Rightarrow> receiver \<Rightarrow> jsval \<Rightarrow> jsval \<Rightarrow> jsval \<Rightarrow> state \<Rightarrow> jsval result \<times> state" where
  "stringify opts this node file settings st =
     (case (if settings = JNull \<or> settings = JUndefined then (file, JNull) else (settings, file))
        of (settings1, file1) \<Rightarrow>
      case resolve_node (name opts) node file1 (store st) of (node1, f, \<sigma>) \<Rightarrow>
        if \<not> truthy node1 then (Threw (JExpectedNode node1), st\<lparr>store := \<sigma>\<rparr>)
        else (case instance_of opts this (st\<lparr>store := \<sigma>\<rparr>) of (self, st1) \<Rightarrow>
              case cc_compile (case this of RInst a \<Rightarrow> Compiler (procs st a) | _ \<Rightarrow> opt_Compiler opts)
                     (JFile f) settings1 (JProc self) (store st1) of (r, \<sigma>1) \<Rightarrow>
                (r, st1\<lparr>store := \<sigma>1,
                        trace := trace st1 @
                          [Compiled (cc_id (case this of RInst a \<Rightarrow> Compiler (procs st a)
                                            | _ \<Rightarrow> opt_Compiler opts))]\<rparr>)))"

section \<open>The pipeline and \<open>process\<close>\<close>

text \<open>The object \<open>opts\<close> of \<open>process\<close>, the \<open>ctx\<close> of the pipeline steps.\<close>

record ctx =
  c_context :: addr
  c_settings :: jsval
  c_file :: jsval
  c_tree :: jsval
  c_result :: jsval

text \<open>
  A pipeline step gives what it calls its continuation with (\<open>JNull\<close> for no error), or
  \<open>None\<close> when it never does, with the context object and the state. The runner wraps a
  step so that what it throws, and what its promise rejects with, goes to the continuation.
\<close>

type_synonym pstep = "ctx \<Rightarrow> state \<Rightarrow> jsval option \<times> ctx \<times> state"

text \<open>Lines 29 to 33.\<close>

definition pipeline_parse :: "options \<Rightarrow> pstep" where
  "pipeline_parse opts c st =
     (if truthy (c_tree c) then (Some JNull, c, st)
      else (case parse opts (RInst (c_context c)) (c_file c) (c_settings c) st of
              (Threw e, st1) \<Rightarrow> (Some e, c, st1)
            | (Returned (Resolved tree), st1) \<Rightarrow> (Some JNull, c\<lparr>c_tree := tree\<rparr>, st1)
            | (Returned (Rejected e), st1) \<Rightarrow> (Some e, c, st1)
            | (Returned Pending, st1) \<Rightarrow> (None, c, st1)))"

text \<open>Lines 34 to 36; \<open>next\<close> is a function.\<close>

definition pipeline_transform :: "options \<Rightarrow> pstep" where
  "pipeline_transform opts c st =
     (case run opts (RInst (c_context c)) (c_tree c) (c_file c) (JFunc 0) st of
        ((Threw e, cb), st1) \<Rightarrow> (Some e, c, st1)
      | ((Returned v, Some (CbError e)), st1) \<Rightarrow> (Some e, c, st1)
      | ((Returned v, Some (CbDone n fl)), st1) \<Rightarrow> (Some JNull, c, st1)
      | ((Returned v, None), st1) \<Rightarrow> (None, c, st1))"

text \<open>Lines 37 to 39.\<close>

definition pipeline_stringify :: "options \<Rightarrow> pstep" where
  "pipeline_stringify opts c st =
     (case stringify opts (RInst (c_context c)) (c_tree c) (c_file c) (c_settings c) st of
        (Threw e, st1) \<Rightarrow> (Some e, c, st1)
      | (Returned v, st1) \<Rightarrow> (Some JNull, c\<lparr>c_result := v\<rparr>, st1))"

definition pipeline :: "options \<Rightarrow> pstep list" where
  "pipeline opts = [pipeline_parse opts, pipeline_transform opts, pipeline_stringify opts]"

text \<open>
  Modelled from the spec: \<open>pipeline.run(opts, callback)\<close> of the ordered runner, on the
  steps: each in turn, the first error ends the run with \<open>callback(err)\<close>, the end of the
  list with \<open>callback(null, opts)\<close>. The result is the error and the context object.
\<close>

fun pipeline_run :: "pstep list \<Rightarrow> ctx \<Rightarrow> state \<Rightarrow> (jsval \<times> ctx) option \<times> state" where
  "pipeline_run [] c st = (Some (JNull, c), st)"
| "pipeline_run (s # ss) c st =
     (case s c st of
        (None, c1, st1) \<Rightarrow> (None, st1)
      | (Some err, c1, st1) \<Rightarrow>
          if truthy err then (Some (err, c1), st1) else pipeline_run ss c1 st1)"

text \<open>
  Lines 249 to 258 of \<open>process\<close>: the receiver is resolved to an instance and the
  context object \<open>opts\<close> is built; \<open>settings || {}\<close> makes a new object when no settings
  are given. Only a string or a carrier file sets \<open>opts.file\<close>; any other value is
  \<open>opts.tree\<close>.
\<close>

definition process_ctx ::
  "options \<Rightarrow> receiver \<Rightarrow> jsval \<Rightarrow> jsval \<Rightarrow> state \<Rightarrow> ctx \<times> state" where
  "process_ctx opts this v settings st =
     (case instance_of opts this st of (self, st1) \<Rightarrow>
      case (if truthy settings then (settings, store st1) else new_object (store st1)) of
        (settings1, \<sigma>1) \<Rightarrow>
        if is_string v \<or> is_VFile v
        then (case new_VFile v \<sigma>1 of (f, \<sigma>2) \<Rightarrow>
                (\<lparr>c_context = self, c_settings = settings1, c_file = JFile f,
                  c_tree = JUndefined, c_result = JUndefined\<rparr>, st1\<lparr>store := \<sigma>2\<rparr>))
        else (\<lparr>c_context = self, c_settings = settings1, c_file = JUndefined,
               c_tree = v, c_result = JUndefined\<rparr>, st1\<lparr>store := \<sigma>1\<rparr>))"

text \<open>
  \<open>process\<close>, lines 248 to 271. The promise resolves with the pair
  \<open>{file: opts.file, result: res.result}\<close>, where \<open>res\<close> is \<open>opts\<close> itself.
\<close>

definition process ::
  "options \<Rightarrow> receiver \<Rightarrow> jsval \<Rightarrow> jsval \<Rightarrow> state \<Rightarrow> (jsval \<times> jsval) promise \<times> state" where
  "process opts this v settings st =
     (case process_ctx opts this v settings st of (c, st1) \<Rightarrow>
        (case pipeline_run (pipeline opts) c st1 of
           (None, st2) \<Rightarrow> (Pending, st2)
         | (Some (err, res), st2) \<Rightarrow>
             (if truthy err then (Rejected err, st2)
              else (Resolved (c_file res, c_result res), st2))))"

section \<open>A valid instance, and a small family for concrete runs\<close>

text \<open>An instance is valid when it has been constructed and its registry runs in its context.\<close>

definition valid_instance :: "state \<Rightarrow> addr \<Rightarrow> bool" where
  "valid_instance st a \<longleftrightarrow> a < next_proc st \<and> ware_context (ware (procs st a)) = JProc a"


definition empty_fstore :: fstore where
  "empty_fstore =
     \<lparr>files = (\<lambda>a. \<lparr>contents = JStr [], spaces = (\<lambda>k. JUndefined)\<rparr>), next_file = 0,
      objs = (\<lambda>a k. JUndefined), next_obj = 0\<rparr>"

text \<open>A Parser whose \<open>parse()\<close> resolves with a new node \<open>{type: 'root'}\<close>.\<close>

definition root_parse :: "jsval \<Rightarrow> jsval \<Rightarrow> jsval \<Rightarrow> fstore \<Rightarrow> jsval promise \<times> fstore" where
  "root_parse file settings proc \<sigma> =
     (Resolved (JObj (next_obj \<sigma>)),
      \<sigma>\<lparr>objs := (objs \<sigma>)(next_obj \<sigma> := (\<lambda>k. if k = ''type'' then JStr ''root'' else JUndefined)),
        next_obj := Suc (next_obj \<sigma>)\<rparr>)"

text \<open>A Compiler whose \<open>compile()\<close> returns the string \<open>0\<close>.\<close>

definition zero_compile :: "jsval \<Rightarrow> jsval \<Rightarrow> jsval \<Rightarrow> fstore \<Rightarrow> jsval result \<times> fstore" where
  "zero_compile file settings proc \<sigma> = (Returned (JStr ''0''), \<sigma>)"

definition demo_options :: options where
  "demo_options =
     \<lparr>name = ''demo'', opt_Parser = \<lparr>pc_id = 0, pc_parse = root_parse\<rparr>,
      opt_Compiler = \<lparr>cc_id = 1, cc_compile = zero_compile\<rparr>, opt_data = DNull\<rparr>"

text \<open>The state right after \<open>unified(options)\<close>: no instance, no file, no object.\<close>

definition initial_state :: "options \<Rightarrow> state" where
  "initial_state opts =
     \<lparr>store = empty_fstore,
      procs = (\<lambda>a. \<lparr>ware = \<lparr>fns = [], ware_context = JUndefined\<rparr>, Parser = opt_Parser opts,
                      Compiler = opt_Compiler opts, data = proto_data opts\<rparr>),
      next_proc = 0, next_class = 2, trace = []\<rparr>"

text \<open>A transformer that returns, and one that reports the error \<open>e\<close>.\<close>

definition passing :: "nat \<Rightarrow> transformer" where
  "passing k = \<lparr>t_id = k, t_fn = (\<lambda>node file \<sigma>. (Continue, \<sigma>))\<rparr>"

definition failing :: "nat \<Rightarrow> jsval \<Rightarrow> transformer" where
  "failing k e = \<lparr>t_id = k, t_fn = (\<lambda>node file \<sigma>. (Fail e, \<sigma>))\<rparr>"

text \<open>
  The state after \<open>Processor.parse('x')\<close> on the new family: file 0 holds the tree
  \<open>JObj 0\<close> in its namespace slot, and instance 0 was made for the parser.
\<close>

definition parsed_state :: state where
  "parsed_state = snd (parse demo_options RClass (JStr ''x'') JUndefined (initial_state demo_options))"

text \<open>
  A state with instance 0 holding one transformer, the empty carrier file 0, and the
  node \<open>{type: 'root'}\<close> at address 0.
\<close>

definition ready_state :: state where
  "ready_state =
     (snd (use demo_options RClass (passing 1) (initial_state demo_options)))
       \<lparr>store := \<lparr>files = (\<lambda>a. \<lparr>contents = JStr [], spaces = (\<lambda>k. JUndefined)\<rparr>), next_file = 1,
                   objs = (\<lambda>a k. if a = 0 \<and> k = ''type'' then JStr ''root'' else JUndefined),
                   next_obj = 1\<rparr>\<rparr>"

text \<open>The same state once instance 0 has also registered a transformer that reports an error.\<close>

definition failing_state :: state where
  "failing_state = snd (use demo_options (RInst 0) (failing 2 (JObj 9)) ready_state)"



section \<open>Construction and plugin attachment\<close>

lemmas ctor_defs = new_Processor_def construct_def unherit_Parser_def unherit_Compiler_def

lemmas demo_defs = demo_options_def initial_state_def empty_fstore_def passing_def failing_def
  root_parse_def zero_compile_def proto_data_def

lemma parsed_state_facts:
  "next_proc parsed_state = 1"
  "next_file (store parsed_state) = 1"
  "next_obj (store parsed_state) = 1"
  "tree_slot (store parsed_state) 0 ''demo'' = JObj 0"
  "objs (store parsed_state) 0 ''type'' = JStr ''root''"
  "ware_context (ware (procs parsed_state 0)) = JProc 0"
  "fns (ware (procs parsed_state 0)) = []"
  "trace parsed_state = [Parsed 0]"
  by (simp_all add: parsed_state_def parse_def createParser_def new_VFile_def instance_of_def
        ctor_defs demo_defs tree_slot_def set_tree_slot_def)

lemma ready_state_facts:
  "next_proc ready_state = 1"
  "next_file (store ready_state) = 1"
  "next_obj (store ready_state) = 1"
  "tree_slot (store ready_state) 0 ''demo'' = JUndefined"
  "objs (store ready_state) 0 ''type'' = JStr ''root''"
  "fns (ware (procs ready_state 0)) = [passing 1]"
  "trace ready_state = []"
  "name demo_options = ''demo''"
  by (simp_all add: ready_state_def use_def instance_of_def ware_use_def
        ctor_defs demo_defs tree_slot_def)

lemma parsed_state_classes:
  "Parser (procs parsed_state 0) = \<lparr>pc_id = 2, pc_parse = root_parse\<rparr>"
  "Compiler (procs parsed_state 0) = \<lparr>cc_id = 3, cc_compile = zero_compile\<rparr>"
  by (simp_all add: parsed_state_def parse_def createParser_def new_VFile_def instance_of_def
        ctor_defs demo_options_def initial_state_def empty_fstore_def root_parse_def)

lemma ready_state_classes:
  "Parser (procs ready_state 0) = \<lparr>pc_id = 2, pc_parse = root_parse\<rparr>"
  "Compiler (procs ready_state 0) = \<lparr>cc_id = 3, cc_compile = zero_compile\<rparr>"
  by (simp_all add: ready_state_def use_def instance_of_def ware_use_def ctor_defs
        demo_options_def initial_state_def)

lemma failing_state_facts:
  "next_proc failing_state = 1"
  "next_file (store failing_state) = 1"
  "next_obj (store failing_state) = 1"
  "fns (ware (procs failing_state 0)) = [passing 1, failing 2 (JObj 9)]"
  "Parser (procs failing_state 0) = \<lparr>pc_id = 2, pc_parse = root_parse\<rparr>"
  "trace failing_state = []"
  by (simp_all add: failing_state_def ready_state_def use_def instance_of_def ware_use_def
        ctor_defs demo_options_def initial_state_def)

lemmas run_defs = run_def run_args_def resolve_node_def new_VFile_def call_done_def
  tree_slot_def set_tree_slot_def

lemmas pipe_defs = process_def process_ctx_def pipeline_def pipeline_parse_def
  pipeline_transform_def pipeline_stringify_def parse_def createParser_def stringify_def
  instance_of_def new_object_def

text \<open>
  C1 (as amended): \<open>use\<close> resolves its receiver through \<open>instance\<close>, which constructs a
  new instance every time the receiver is not one; nothing is memoized. Two successive
  \<open>use\<close> calls on the bare family class therefore return two distinct new instances, the
  first holding only the first plugin and the second only the second, and no instance that
  existed before is changed. Called on an instance, \<open>use\<close> works on that very instance, so
  two calls leave both plugins, in order, at the end of its one registry.
\<close>

theorem use_resolves_receiver:
  "(let r1 = use opts RClass A st; r2 = use opts RClass B (snd r1)
    in fst r1 = next_proc st \<and> fst r2 = Suc (next_proc st) \<and> fst r1 \<noteq> fst r2 \<and>
       fns (ware (procs (snd r2) (fst r1))) = [A] \<and>
       fns (ware (procs (snd r2) (fst r2))) = [B] \<and>
       (\<forall>q. q < next_proc st \<longrightarrow> procs (snd r2) q = procs st q)) \<and>
   (let r1 = use opts (RInst p) A st; r2 = use opts (RInst p) B (snd r1)
    in fst r1 = p \<and> fst r2 = p \<and> next_proc (snd r2) = next_proc st \<and>
       fns (ware (procs (snd r2) p)) = fns (ware (procs st p)) @ [A, B])"
  by (simp add: Let_def use_def instance_of_def ctor_defs ware_use_def)

text \<open>
  The theorem at the state \<open>parsed_state\<close>, where instance 0 exists: two bare-class
  \<open>use\<close> calls leave it as it was.
\<close>

theorem use_resolves_receiver_witness:
  "(0::nat) < next_proc parsed_state \<and>
   procs (snd (use demo_options RClass (passing 2)
                 (snd (use demo_options RClass (passing 1) parsed_state)))) 0
     = procs parsed_state 0"
proof -
  have h: "(0::nat) < next_proc parsed_state"
    by (simp add: parsed_state_facts)
  with use_resolves_receiver [of demo_options "passing 1" parsed_state "passing 2"]
  show ?thesis by (simp add: Let_def)
qed

text \<open>
  C1 as stated fails: on a new family, \<open>Processor.use(a)\<close> and then \<open>Processor.use(b)\<close>
  return the instances 0 and 1, whose registries hold one plugin each.
\<close>

theorem use_on_class_gives_two_instances:
  "fst (use demo_options RClass (passing 2)
          (snd (use demo_options RClass (passing 1) (initial_state demo_options))))
     \<noteq> fst (use demo_options RClass (passing 1) (initial_state demo_options)) \<and>
   map t_id (fns (ware (procs (snd (use demo_options RClass (passing 2)
          (snd (use demo_options RClass (passing 1) (initial_state demo_options))))) 0))) = [1] \<and>
   map t_id (fns (ware (procs (snd (use demo_options RClass (passing 2)
          (snd (use demo_options RClass (passing 1) (initial_state demo_options))))) 1))) = [2]"
  by (simp add: use_def instance_of_def ctor_defs ware_use_def initial_state_def passing_def)

text \<open>
  C2 (as amended): for a valid instance \<open>p\<close>, calling the constructor with \<open>p\<close> as its
  argument, as a plain function on a receiver that is not an instance or with \<open>new\<close>,
  does not return \<open>p\<close>: the argument is not read, and the call returns a newly constructed
  valid instance with an empty registry and newly derived Parser and Compiler, while \<open>p\<close>
  keeps all its fields. Called with \<open>p\<close> as receiver, the constructor returns no value and
  initialises \<open>p\<close> again in place: \<open>p\<close> stays a valid instance, with an empty registry and
  newly derived Parser and Compiler, and no other instance changes.
\<close>

theorem Processor_constructs:
  assumes "valid_instance st p"
  shows "(\<forall>this. \<not> instanceof_Processor this \<longrightarrow>
            (let r = Processor opts this (JProc p) st
             in fst r = JProc (next_proc st) \<and> fst r \<noteq> JProc p \<and>
                procs (snd r) p = procs st p \<and> valid_instance (snd r) p \<and>
                valid_instance (snd r) (next_proc st) \<and>
                fns (ware (procs (snd r) (next_proc st))) = [])) \<and>
         (let r = new_Processor opts (JProc p) st
          in fst r = next_proc st \<and> fst r \<noteq> p \<and>
             procs (snd r) p = procs st p \<and> valid_instance (snd r) p \<and>
             valid_instance (snd r) (fst r) \<and>
             fns (ware (procs (snd r) (fst r))) = [] \<and>
             pc_id (Parser (procs (snd r) (fst r))) = next_class st \<and>
             cc_id (Compiler (procs (snd r) (fst r))) = Suc (next_class st)) \<and>
         (let r = Processor opts (RInst p) arg st
          in fst r = JUndefined \<and> valid_instance (snd r) p \<and>
             fns (ware (procs (snd r) p)) = [] \<and>
             pc_id (Parser (procs (snd r) p)) = next_class st \<and>
             cc_id (Compiler (procs (snd r) p)) = Suc (next_class st) \<and>
             (\<forall>q. q \<noteq> p \<longrightarrow> procs (snd r) q = procs st q))"
proof -
  from assms have lt: "p < next_proc st" and cx: "ware_context (ware (procs st p)) = JProc p"
    by (simp_all add: valid_instance_def)
  have a: "\<And>this. \<not> instanceof_Processor this \<Longrightarrow>
            (let r = Processor opts this (JProc p) st
             in fst r = JProc (next_proc st) \<and> fst r \<noteq> JProc p \<and>
                procs (snd r) p = procs st p \<and> valid_instance (snd r) p \<and>
                valid_instance (snd r) (next_proc st) \<and>
                fns (ware (procs (snd r) (next_proc st))) = [])"
  proof -
    fix this :: receiver
    assume "\<not> instanceof_Processor this"
    then show "?thesis this" using lt cx
      by (cases this) (simp_all add: Let_def Processor_def ctor_defs valid_instance_def)
  qed
  have b: "(let r = new_Processor opts (JProc p) st
          in fst r = next_proc st \<and> fst r \<noteq> p \<and>
             procs (snd r) p = procs st p \<and> valid_instance (snd r) p \<and>
             valid_instance (snd r) (fst r) \<and>
             fns (ware (procs (snd r) (fst r))) = [] \<and>
             pc_id (Parser (procs (snd r) (fst r))) = next_class st \<and>
             cc_id (Compiler (procs (snd r) (fst r))) = Suc (next_class st))"
    using lt cx by (simp add: Let_def ctor_defs valid_instance_def)
  have c: "(let r = Processor opts (RInst p) arg st
          in fst r = JUndefined \<and> valid_instance (snd r) p \<and>
             fns (ware (procs (snd r) p)) = [] \<and>
             pc_id (Parser (procs (snd r) p)) = next_class st \<and>
             cc_id (Compiler (procs (snd r) p)) = Suc (next_class st) \<and>
             (\<forall>q. q \<noteq> p \<longrightarrow> procs (snd r) q = procs st q))"
    using lt cx by (simp add: Let_def Processor_def ctor_defs valid_instance_def)
  from a b c show ?thesis by blast
qed

text \<open>
  The theorem at \<open>parsed_state\<close> and its instance 0: \<open>Processor(p)\<close> returns the new
  instance 1.
\<close>

theorem Processor_constructs_witness:
  "valid_instance parsed_state 0 \<and>
   fst (Processor demo_options RUndefined (JProc 0) parsed_state) = JProc 1 \<and>
   fst (Processor demo_options (RInst 0) JUndefined parsed_state) = JUndefined"
proof -
  have h: "valid_instance parsed_state 0"
    by (simp add: valid_instance_def parsed_state_facts)
  from Processor_constructs [OF h, of demo_options JUndefined] h
  show ?thesis by (simp add: Let_def parsed_state_facts)
qed

text \<open>
  C2 as stated fails: after \<open>Processor.use(a)\<close> has made instance 0 with one plugin,
  \<open>Processor(p)\<close> with that instance as argument returns another object, and the
  constructor called with that instance as receiver returns no value and empties its
  registry.
\<close>

theorem Processor_again_is_no_noop:
  "fst (Processor demo_options RUndefined (JProc 0)
          (snd (use demo_options RClass (passing 1) (initial_state demo_options)))) \<noteq> JProc 0 \<and>
   fst (Processor demo_options (RInst 0) JUndefined
          (snd (use demo_options RClass (passing 1) (initial_state demo_options)))) \<noteq> JProc 0 \<and>
   fns (ware (procs (snd (Processor demo_options (RInst 0) JUndefined
          (snd (use demo_options RClass (passing 1) (initial_state demo_options))))) 0))
     \<noteq> fns (ware (procs (snd (use demo_options RClass (passing 1) (initial_state demo_options))) 0))"
  by (simp add: Processor_def use_def instance_of_def ctor_defs ware_use_def initial_state_def
        passing_def)

section \<open>Transform: resolution of the tree, order of the transformers\<close>


lemma ware_run_trace:
  "\<exists>ks. trace (snd (ware_run ts node file st)) = trace st @ map Transformed ks"
proof (induction ts arbitrary: st)
  case Nil
  show ?case by simp
next
  case (Cons t ts)
  obtain r \<sigma> where step: "t_fn t node file (store st) = (r, \<sigma>)"
    by (cases "t_fn t node file (store st)")
  let ?st = "st\<lparr>store := \<sigma>, trace := trace st @ [Transformed (t_id t)]\<rparr>"
  from Cons.IH [of ?st] obtain ks
    where ks: "trace (snd (ware_run ts node file ?st)) = trace st @ map Transformed (t_id t # ks)"
    by auto
  have here: "trace ?st = trace st @ map Transformed [t_id t]" by simp
  show ?case
  proof (cases r)
    case Continue
    with step ks show ?thesis by (intro exI [of _ "t_id t # ks"]) simp
  next
    case (Fail e)
    show ?thesis
    proof (cases "truthy e")
      case True
      with Fail step show ?thesis by (intro exI [of _ "[t_id t]"]) simp
    next
      case False
      with Fail step ks show ?thesis by (intro exI [of _ "t_id t # ks"]) simp
    qed
  next
    case Hang
    with step show ?thesis by (intro exI [of _ "[t_id t]"]) simp
  qed
qed

lemma ware_run_error_truthy:
  "fst (ware_run ts node file st) = Some (CbError e) \<Longrightarrow> truthy e"
  by (induction ts arbitrary: st) (auto split: prod.splits step.splits if_splits)



lemma ware_run_first_error:
  assumes "ware_run pre node fl st = (Some (CbDone node fl), sb)"
      and "t_fn b node fl (store sb) = (Fail e, \<sigma>b)"
      and "truthy e"
  shows "ware_run (pre @ b # post) node fl st =
           (Some (CbError e), sb\<lparr>store := \<sigma>b, trace := trace sb @ [Transformed (t_id b)]\<rparr>)"
  using assms
proof (induction pre arbitrary: st)
  case Nil
  then show ?case by simp
next
  case (Cons t ts)
  obtain r \<sigma> where step: "t_fn t node fl (store st) = (r, \<sigma>)"
    by (cases "t_fn t node fl (store st)")
  let ?st = "st\<lparr>store := \<sigma>, trace := trace st @ [Transformed (t_id t)]\<rparr>"
  show ?case
  proof (cases r)
    case Continue
    with Cons.prems(1) step
    have rest: "ware_run ts node fl ?st = (Some (CbDone node fl), sb)" by simp
    from Cons.IH [OF rest Cons.prems(2,3)] Continue step show ?thesis by simp
  next
    case (Fail x)
    with Cons.prems(1) step
    have rest: "ware_run ts node fl ?st = (Some (CbDone node fl), sb)" and nx: "\<not> truthy x"
      by (simp_all split: if_splits)
    from Cons.IH [OF rest Cons.prems(2,3)] Fail nx step show ?thesis by simp
  next
    case Hang
    with Cons.prems(1) step show ?thesis by simp
  qed
qed

lemma ware_run_error_split:
  assumes "ware_run ts node fl st = (Some (CbError e), st')"
  shows "\<exists>pre b post sb \<sigma>b. ts = pre @ b # post \<and>
           ware_run pre node fl st = (Some (CbDone node fl), sb) \<and>
           t_fn b node fl (store sb) = (Fail e, \<sigma>b) \<and> truthy e \<and>
           st' = sb\<lparr>store := \<sigma>b, trace := trace sb @ [Transformed (t_id b)]\<rparr>"
  using assms
proof (induction ts arbitrary: st)
  case Nil
  then show ?case by simp
next
  case (Cons t ts)
  obtain r \<sigma> where step: "t_fn t node fl (store st) = (r, \<sigma>)"
    by (cases "t_fn t node fl (store st)")
  let ?st = "st\<lparr>store := \<sigma>, trace := trace st @ [Transformed (t_id t)]\<rparr>"
  show ?case
  proof (cases "\<exists>x. r = Fail x \<and> truthy x")
    case True
    then obtain x where x: "r = Fail x" "truthy x" by blast
    with Cons.prems step have "x = e" "st' = ?st" by simp_all
    with x step have "t # ts = [] @ t # ts \<and>
           ware_run [] node fl st = (Some (CbDone node fl), st) \<and>
           t_fn t node fl (store st) = (Fail e, \<sigma>) \<and> truthy e \<and>
           st' = st\<lparr>store := \<sigma>, trace := trace st @ [Transformed (t_id t)]\<rparr>"
      by simp
    then show ?thesis by blast
  next
    case False
    with Cons.prems step have rest: "ware_run ts node fl ?st = (Some (CbError e), st')"
      by (cases r) (simp_all split: if_splits)
    from Cons.IH [OF rest] obtain pre b post sb \<sigma>b
      where s: "ts = pre @ b # post"
        "ware_run pre node fl ?st = (Some (CbDone node fl), sb)"
        "t_fn b node fl (store sb) = (Fail e, \<sigma>b)" "truthy e"
        "st' = sb\<lparr>store := \<sigma>b, trace := trace sb @ [Transformed (t_id b)]\<rparr>"
      by blast
    from False step s(2) Cons.prems
    have "ware_run (t # pre) node fl st = (Some (CbDone node fl), sb)"
      by (cases r) auto
    with s have "t # ts = (t # pre) @ b # post \<and>
           ware_run (t # pre) node fl st = (Some (CbDone node fl), sb) \<and>
           t_fn b node fl (store sb) = (Fail e, \<sigma>b) \<and> truthy e \<and>
           st' = sb\<lparr>store := \<sigma>b, trace := trace sb @ [Transformed (t_id b)]\<rparr>"
      by simp
    then show ?thesis by blast
  qed
qed

lemma resolve_node_file:
  "resolve_node key node (JFile a) \<sigma> =
     (if \<not> truthy node
      then ((if truthy (tree_slot \<sigma> a key) then tree_slot \<sigma> a key else node), a, \<sigma>)
      else if \<not> truthy (tree_slot \<sigma> a key) then (node, a, set_tree_slot \<sigma> a key node)
      else (node, a, \<sigma>))"
  by (simp add: resolve_node_def new_VFile_def)

lemma tree_slot_set [simp]:
  "tree_slot (set_tree_slot \<sigma> f key v) f key = v"
  by (simp add: tree_slot_def set_tree_slot_def)

lemma tree_slot_new_VFile_fresh:
  "\<not> is_VFile x \<Longrightarrow> tree_slot (snd (new_VFile x \<sigma>)) (fst (new_VFile x \<sigma>)) key = JUndefined"
  by (cases x) (simp_all add: new_VFile_def tree_slot_def Let_def)

lemma resolve_node_none:
  assumes "\<not> truthy node"
      and "\<forall>a. file = JFile a \<longrightarrow> \<not> truthy (tree_slot \<sigma> a key)"
  shows "fst (resolve_node key node file \<sigma>) = node"
proof (cases "is_VFile file")
  case True
  then obtain a where "file = JFile a" by (cases "file") simp_all
  with assms show ?thesis by (simp add: resolve_node_file)
next
  case False
  from tree_slot_new_VFile_fresh [OF False, of \<sigma> key] assms(1)
  show ?thesis by (simp add: resolve_node_def case_prod_beta)
qed

lemma resolve_node_shorthand:
  assumes "truthy node" and "\<not> truthy file" and "\<not> truthy (get_prop \<sigma> node ''type'')"
      and "\<forall>a. node = JFile a \<longrightarrow> \<not> truthy (tree_slot \<sigma> a key)"
  shows "fst (resolve_node key node file \<sigma>) = JNull"
proof (cases "is_VFile node")
  case True
  then obtain a where "node = JFile a" by (cases node) simp_all
  with assms show ?thesis by (simp add: resolve_node_def new_VFile_def)
next
  case False
  from tree_slot_new_VFile_fresh [OF False, of \<sigma> key] assms
  show ?thesis by (simp add: resolve_node_def case_prod_beta)
qed

lemma run_throws:
  assumes "fst (resolve_node (name opts) node (fst (run_args file done)) (store st)) = n"
      and "\<not> truthy n"
  shows "fst (run opts this node file done st) = (Threw (JExpectedNode n), None) \<and>
         trace (snd (run opts this node file done st)) = trace st \<and>
         procs (snd (run opts this node file done st)) = procs st"
proof -
  obtain file1 done1 where a: "run_args file done = (file1, done1)"
    by (cases "run_args file done")
  obtain n1 f \<sigma> where r: "resolve_node (name opts) node file1 (store st) = (n1, f, \<sigma>)"
    by (cases "resolve_node (name opts) node file1 (store st)")
  from assms a r have "n1 = n" by simp
  with assms(2) a r show ?thesis by (simp add: run_def)
qed

lemma stringify_throws:
  assumes "fst (resolve_node (name opts) node
                  (if settings = JNull \<or> settings = JUndefined then JNull else file) (store st)) = n"
      and "\<not> truthy n"
  shows "fst (stringify opts this node file settings st) = Threw (JExpectedNode n) \<and>
         trace (snd (stringify opts this node file settings st)) = trace st \<and>
         procs (snd (stringify opts this node file settings st)) = procs st"
proof -
  let ?file1 = "if settings = JNull \<or> settings = JUndefined then JNull else file"
  obtain n1 f \<sigma> where r: "resolve_node (name opts) node ?file1 (store st) = (n1, f, \<sigma>)"
    by (cases "resolve_node (name opts) node ?file1 (store st)")
  from assms r have "n1 = n" by simp
  with assms(2) r show ?thesis by (cases "settings = JNull \<or> settings = JUndefined") (auto simp add: stringify_def)
qed

lemma run_args_file:
  "\<forall>a. file = JFile a \<longrightarrow> P a \<Longrightarrow> \<forall>a. fst (run_args file done) = JFile a \<longrightarrow> P a"
  by (cases "file") (simp_all add: run_args_def)




text \<open>
  C5: when no tree can be resolved, \<open>run\<close> and \<open>stringify\<close> throw the error
  "Expected node" synchronously, on every receiver and whatever the callback: no callback
  is called and no transformer or Compiler runs. No tree can be resolved when the tree
  argument is falsy and the file given, if it is a carrier file, has an empty namespace
  slot (\<open>run()\<close> with nothing is the case of an absent file); and when the only argument
  is a value without \<open>type\<close>, taken as the file, whose slot is empty.
\<close>

theorem no_tree_throws:
  "(\<not> truthy node \<and> (\<forall>a. fl = JFile a \<longrightarrow> \<not> truthy (tree_slot (store st) a (name opts))) \<longrightarrow>
      fst (run opts this node fl cb st) = (Threw (JExpectedNode node), None) \<and>
      trace (snd (run opts this node fl cb st)) = trace st \<and>
      fst (stringify opts this node fl settings st) = Threw (JExpectedNode node) \<and>
      trace (snd (stringify opts this node fl settings st)) = trace st) \<and>
   (truthy node \<and> \<not> truthy (get_prop (store st) node ''type'') \<and>
    (\<forall>a. node = JFile a \<longrightarrow> \<not> truthy (tree_slot (store st) a (name opts))) \<longrightarrow>
      (\<not> truthy (fst (run_args fl cb)) \<longrightarrow>
         fst (run opts this node fl cb st) = (Threw (JExpectedNode JNull), None) \<and>
         trace (snd (run opts this node fl cb st)) = trace st) \<and>
      (settings = JNull \<or> settings = JUndefined \<or> \<not> truthy fl \<longrightarrow>
         fst (stringify opts this node fl settings st) = Threw (JExpectedNode JNull) \<and>
         trace (snd (stringify opts this node fl settings st)) = trace st))"
proof (intro conjI impI)
  assume h: "\<not> truthy node \<and> (\<forall>a. fl = JFile a \<longrightarrow> \<not> truthy (tree_slot (store st) a (name opts)))"
  then have n: "\<not> truthy node" by simp
  from h have "\<forall>a. fst (run_args fl cb) = JFile a \<longrightarrow> \<not> truthy (tree_slot (store st) a (name opts))"
    by (intro run_args_file) simp
  with n have r: "fst (resolve_node (name opts) node (fst (run_args fl cb)) (store st)) = node"
    by (intro resolve_node_none)
  from h have "\<forall>a. (if settings = JNull \<or> settings = JUndefined then JNull else fl) = JFile a
                  \<longrightarrow> \<not> truthy (tree_slot (store st) a (name opts))"
    by simp
  with n have s: "fst (resolve_node (name opts) node
                  (if settings = JNull \<or> settings = JUndefined then JNull else fl) (store st)) = node"
    by (intro resolve_node_none)
  from run_throws [OF r n]
  show "fst (run opts this node fl cb st) = (Threw (JExpectedNode node), None)"
    and "trace (snd (run opts this node fl cb st)) = trace st" by simp_all
  from stringify_throws [OF s n]
  show "fst (stringify opts this node fl settings st) = Threw (JExpectedNode node)"
    and "trace (snd (stringify opts this node fl settings st)) = trace st" by simp_all
next
  assume h: "truthy node \<and> \<not> truthy (get_prop (store st) node ''type'') \<and>
    (\<forall>a. node = JFile a \<longrightarrow> \<not> truthy (tree_slot (store st) a (name opts)))"
  {
    assume f: "\<not> truthy (fst (run_args fl cb))"
    from h f have r: "fst (resolve_node (name opts) node (fst (run_args fl cb)) (store st)) = JNull"
      by (intro resolve_node_shorthand) simp_all
    from run_throws [OF r]
    show "fst (run opts this node fl cb st) = (Threw (JExpectedNode JNull), None)"
      and "trace (snd (run opts this node fl cb st)) = trace st" by simp_all
  }
  {
    assume f: "settings = JNull \<or> settings = JUndefined \<or> \<not> truthy fl"
    then have "\<not> truthy (if settings = JNull \<or> settings = JUndefined then JNull else fl)"
      by auto
    with h have s: "fst (resolve_node (name opts) node
                  (if settings = JNull \<or> settings = JUndefined then JNull else fl) (store st)) = JNull"
      by (intro resolve_node_shorthand) simp_all
    from stringify_throws [OF s]
    show "fst (stringify opts this node fl settings st) = Threw (JExpectedNode JNull)"
      and "trace (snd (stringify opts this node fl settings st)) = trace st" by simp_all
  }
qed

text \<open>
  The theorem at \<open>run()\<close> and \<open>stringify()\<close> without arguments, and at \<open>run(file)\<close>
  and \<open>stringify(file)\<close> with the empty carrier file 0.
\<close>

theorem no_tree_throws_witness:
  "\<not> truthy JUndefined \<and>
   fst (run demo_options (RInst 0) JUndefined JUndefined JUndefined ready_state)
     = (Threw (JExpectedNode JUndefined), None) \<and>
   fst (stringify demo_options (RInst 0) JUndefined JUndefined JUndefined ready_state)
     = Threw (JExpectedNode JUndefined) \<and>
   truthy (JFile 0) \<and>
   fst (run demo_options (RInst 0) (JFile 0) JUndefined JUndefined ready_state)
     = (Threw (JExpectedNode JNull), None) \<and>
   fst (stringify demo_options (RInst 0) (JFile 0) JUndefined JUndefined ready_state)
     = Threw (JExpectedNode JNull)"
  using no_tree_throws [where node = JUndefined and fl = JUndefined and st = ready_state
          and opts = demo_options and this = "RInst 0" and settings = JUndefined
          and cb = JUndefined]
        no_tree_throws [where node = "JFile 0" and fl = JUndefined and st = ready_state
          and opts = demo_options and this = "RInst 0" and settings = JUndefined
          and cb = JUndefined]
  by (simp add: ready_state_facts run_args_def)




text \<open>
  C9: on an instance whose registry was empty, \<open>use(A)\<close>, \<open>use(B)\<close>, \<open>use(C)\<close> give
  the registry \<open>[A, B, C]\<close>, and a \<open>run\<close> that resolves a tree and has a callback hands
  the tree and the file to them in exactly that order, one at a time, each starting from
  the heap the one before left: when all three complete, the trace grows by A, B, C and
  the callback gets no error, the tree and the file; when A completes and B reports the
  error \<open>e\<close>, the trace grows by A and B only, C is never called (the heap is as B left
  it) and the callback receives \<open>e\<close>.
\<close>

theorem transformers_run_in_order:
  assumes empty: "fns (ware (procs st p)) = []"
      and args: "run_args fl cb = (file1, done1)"
      and fn: "is_function done1"
      and res: "resolve_node (name opts) node file1 (store st) = (node1, f, \<sigma>0)"
      and tree: "truthy node1"
  shows
   "(let st3 = snd (use opts (RInst p) C (snd (use opts (RInst p) B (snd (use opts (RInst p) A st)))));
         rA = t_fn A node1 (JFile f) \<sigma>0;
         rB = t_fn B node1 (JFile f) (snd rA);
         rC = t_fn C node1 (JFile f) (snd rB);
         out = run opts (RInst p) node fl cb st3
     in fns (ware (procs st3 p)) = [A, B, C] \<and>
        (fst rA = Continue \<and> fst rB = Continue \<and> fst rC = Continue \<longrightarrow>
           fst out = (Returned node1, Some (CbDone node1 (JFile f))) \<and>
           trace (snd out) = trace st @
             [Transformed (t_id A), Transformed (t_id B), Transformed (t_id C)] \<and>
           store (snd out) = snd rC) \<and>
        (fst rA = Continue \<and> fst rB = Fail e \<and> truthy e \<longrightarrow>
           fst out = (Returned node1, Some (CbError e)) \<and>
           trace (snd out) = trace st @ [Transformed (t_id A), Transformed (t_id B)] \<and>
           store (snd out) = snd rB))"
proof -
  define st3 where
    "st3 = snd (use opts (RInst p) C (snd (use opts (RInst p) B (snd (use opts (RInst p) A st)))))"
  obtain xA sA where a: "t_fn A node1 (JFile f) \<sigma>0 = (xA, sA)"
    by (cases "t_fn A node1 (JFile f) \<sigma>0")
  obtain xB sB where b: "t_fn B node1 (JFile f) sA = (xB, sB)"
    by (cases "t_fn B node1 (JFile f) sA")
  obtain xC sC where c: "t_fn C node1 (JFile f) sB = (xC, sC)"
    by (cases "t_fn C node1 (JFile f) sB")
  have reg: "fns (ware (procs st3 p)) = [A, B, C]"
    using empty by (simp add: st3_def use_def instance_of_def ware_use_def)
  have sto: "store st3 = store st" and tr: "trace st3 = trace st"
    by (simp_all add: st3_def use_def instance_of_def ware_use_def)
  have out: "run opts (RInst p) node fl cb st3 =
          (case ware_run [A, B, C] node1 (JFile f) (st3\<lparr>store := \<sigma>0\<rparr>) of
             (c, st') \<Rightarrow> ((Returned node1, c), st'))"
    using tree fn by (simp add: run_def args sto res reg call_done_def)
  have ok: "xA = Continue \<Longrightarrow> xB = Continue \<Longrightarrow> xC = Continue \<Longrightarrow>
          run opts (RInst p) node fl cb st3 =
            ((Returned node1, Some (CbDone node1 (JFile f))),
             st3\<lparr>store := sC, trace := trace st @
               [Transformed (t_id A), Transformed (t_id B), Transformed (t_id C)]\<rparr>)"
    by (simp add: out a b c tr)
  have bad: "xA = Continue \<Longrightarrow> xB = Fail e \<Longrightarrow> truthy e \<Longrightarrow>
          run opts (RInst p) node fl cb st3 =
            ((Returned node1, Some (CbError e)),
             st3\<lparr>store := sB, trace := trace st @ [Transformed (t_id A), Transformed (t_id B)]\<rparr>)"
    by (simp add: out a b tr)
  show ?thesis
    unfolding Let_def st3_def [symmetric]
    using reg ok bad by (simp add: a b c)
qed

text \<open>The theorem at instance 0 of \<open>parsed_state\<close>, with a failing second transformer.\<close>

theorem transformers_run_in_order_witness:
  "fns (ware (procs parsed_state 0)) = [] \<and> is_function (JFunc 7) \<and> truthy (JObj 0) \<and>
   fst (run demo_options (RInst 0) (JObj 0) (JFile 0) (JFunc 7)
         (snd (use demo_options (RInst 0) (passing 3)
            (snd (use demo_options (RInst 0) (failing 2 (JObj 9))
               (snd (use demo_options (RInst 0) (passing 1) parsed_state)))))))
     = (Returned (JObj 0), Some (CbError (JObj 9))) \<and>
   trace (snd (run demo_options (RInst 0) (JObj 0) (JFile 0) (JFunc 7)
         (snd (use demo_options (RInst 0) (passing 3)
            (snd (use demo_options (RInst 0) (failing 2 (JObj 9))
               (snd (use demo_options (RInst 0) (passing 1) parsed_state))))))))
     = [Parsed 0, Transformed 1, Transformed 2]"
proof -
  have e: "fns (ware (procs parsed_state 0)) = []" by (simp add: parsed_state_facts)
  have a: "run_args (JFile 0) (JFunc 7) = (JFile 0, JFunc 7)" by (simp add: run_args_def)
  have fn: "is_function (JFunc 7)" by simp
  have r: "resolve_node (name demo_options) (JObj 0) (JFile 0) (store parsed_state)
             = (JObj 0, 0, store parsed_state)"
    by (simp add: resolve_node_file parsed_state_facts ready_state_facts)
  have t: "truthy (JObj 0)" by simp
  from transformers_run_in_order [OF e a fn r t, where A = "passing 1"
         and B = "failing 2 (JObj 9)" and C = "passing 3" and e = "JObj 9"] e
  show ?thesis by (simp add: Let_def passing_def failing_def parsed_state_facts)
qed

text \<open>
  On the bare family class, whenever a tree resolves, \<open>run\<close> leaves every registry and
  the trace as they were, calls the callback, when one is given, at once with no error,
  the resolved tree and the file, and returns the tree.
\<close>

lemma run_on_class_skips_registry:
  assumes "run_args fl cb = (file1, done1)"
      and "resolve_node (name opts) node file1 (store st) = (node1, f, \<sigma>)"
      and "truthy node1"
  shows "run opts RClass node fl cb st =
           ((Returned node1, if is_function done1 then Some (CbDone node1 (JFile f)) else None),
            st\<lparr>store := \<sigma>\<rparr>) \<and>
         trace (snd (run opts RClass node fl cb st)) = trace st \<and>
         procs (snd (run opts RClass node fl cb st)) = procs st"
  using assms by (simp add: run_def call_done_def)

text \<open>\<open>Processor.run(tree, callback)\<close> in \<open>parsed_state\<close>.\<close>

lemma run_on_class_at_parsed_state:
  "run demo_options RClass (JObj 0) (JFunc 7) JUndefined parsed_state =
     ((Returned (JObj 0), Some (CbDone (JObj 0) (JFile 1))),
      parsed_state\<lparr>store := snd (snd (resolve_node ''demo'' (JObj 0) JNull (store parsed_state)))\<rparr>)"
proof -
  have a: "run_args (JFunc 7) JUndefined = (JNull, JFunc 7)" by (simp add: run_args_def)
  have n: "name demo_options = ''demo''" by (simp add: demo_options_def)
  have r: "resolve_node (name demo_options) (JObj 0) JNull (store parsed_state) =
             (JObj 0, 1, snd (snd (resolve_node ''demo'' (JObj 0) JNull (store parsed_state))))"
    by (simp add: n resolve_node_def new_VFile_def parsed_state_facts tree_slot_def Let_def)
  have t: "truthy (JObj 0)" by simp
  from run_on_class_skips_registry [OF a r t] show ?thesis by simp
qed

text \<open>
  A detached \<open>stringify\<close> works: its \<open>this &&\<close> guard falls back to the family's
  Compiler and \<open>instance\<close> makes an instance.
\<close>

lemma stringify_detached:
  "fst (stringify demo_options RUndefined (JObj 0) (JFile 0) (JObj 0) parsed_state)
     = Returned (JStr ''0'')"
  by (simp add: stringify_def resolve_node_file instance_of_def ctor_defs parsed_state_facts
        ready_state_facts demo_options_def zero_compile_def)

text \<open>
  C10: a call of \<open>run\<close> on a receiver that is not an instance should run no transformer,
  call the callback at once with no error and the resolved tree, and return the tree; the
  comment at lines 152 to 155 says so and the \<open>else\<close> branch does it. The code does not
  do this for a detached call, whose receiver is \<open>undefined\<close>: with a tree, a file and a
  callback in \<open>parsed_state\<close>, the guard \<open>self.ware && self.ware.fns\<close> reads a
  property of \<open>undefined\<close>, \<open>run\<close> throws a TypeError, and the callback is never called.
\<close>

theorem run_detached_throws:
  "fst (run demo_options RUndefined (JObj 0) (JFile 0) (JFunc 7) parsed_state)
     = (Threw JTypeError, None)"
  by (simp add: run_def run_args_def resolve_node_file parsed_state_facts demo_options_def)

section \<open>Parse, stringify and the pipeline\<close>

lemma resolve_node_absent_file:
  "\<not> truthy fl \<Longrightarrow>
   (truthy node \<and> truthy (get_prop \<sigma> node ''type'') \<longrightarrow>
      fst (resolve_node key node fl \<sigma>) = node \<and>
      fst (snd (resolve_node key node fl \<sigma>)) = next_file \<sigma> \<and>
      tree_slot (snd (snd (resolve_node key node fl \<sigma>))) (next_file \<sigma>) key = node) \<and>
   (truthy node \<and> \<not> truthy (get_prop \<sigma> node ''type'') \<longrightarrow>
      fst (snd (resolve_node key node fl \<sigma>)) = fst (new_VFile node \<sigma>) \<and>
      snd (snd (resolve_node key node fl \<sigma>)) = snd (new_VFile node \<sigma>) \<and>
      fst (resolve_node key node fl \<sigma>) =
        (if truthy (tree_slot (snd (new_VFile node \<sigma>)) (fst (new_VFile node \<sigma>)) key)
         then tree_slot (snd (new_VFile node \<sigma>)) (fst (new_VFile node \<sigma>)) key else JNull)) \<and>
   (\<not> truthy node \<longrightarrow> fst (resolve_node key node fl \<sigma>) = node)"
proof (intro conjI impI)
  assume f: "\<not> truthy fl"
  then have nf: "\<not> is_VFile fl" by (cases fl) simp_all
  have fresh: "new_VFile fl \<sigma> =
      (next_file \<sigma>, \<sigma>\<lparr>files := (files \<sigma>)(next_file \<sigma> := \<lparr>contents = JStr [], spaces = (\<lambda>k. JUndefined)\<rparr>),
                     next_file := Suc (next_file \<sigma>)\<rparr>)"
    using f by (cases fl) (simp_all add: new_VFile_def Let_def)
  {
    assume h: "truthy node \<and> truthy (get_prop \<sigma> node ''type'')"
    then show "fst (resolve_node key node fl \<sigma>) = node"
      and "fst (snd (resolve_node key node fl \<sigma>)) = next_file \<sigma>"
      and "tree_slot (snd (snd (resolve_node key node fl \<sigma>))) (next_file \<sigma>) key = node"
      by (simp_all add: resolve_node_def fresh tree_slot_def set_tree_slot_def)
  }
  {
    assume h: "truthy node \<and> \<not> truthy (get_prop \<sigma> node ''type'')"
    with f show "fst (snd (resolve_node key node fl \<sigma>)) = fst (new_VFile node \<sigma>)"
      and "snd (snd (resolve_node key node fl \<sigma>)) = snd (new_VFile node \<sigma>)"
      and "fst (resolve_node key node fl \<sigma>) =
        (if truthy (tree_slot (snd (new_VFile node \<sigma>)) (fst (new_VFile node \<sigma>)) key)
         then tree_slot (snd (new_VFile node \<sigma>)) (fst (new_VFile node \<sigma>)) key else JNull)"
      by (simp_all add: resolve_node_def case_prod_beta)
  }
  {
    assume "\<not> truthy node"
    with nf show "fst (resolve_node key node fl \<sigma>) = node"
      by (intro resolve_node_none) (auto)
  }
qed

lemma instance_of_trace:
  "trace (snd (instance_of opts this st)) = trace st"
  by (cases this) (simp_all add: instance_of_def ctor_defs)

lemma parse_trace:
  "\<exists>evs. trace (snd (parse opts this v settings st)) = trace st @ evs \<and>
         (\<forall>k. Compiled k \<notin> set evs)"
proof -
  obtain f \<sigma> where nv: "new_VFile v (store st) = (f, \<sigma>)" by (cases "new_VFile v (store st)")
  obtain p st1 where cp: "createParser opts this (JFile f) settings (st\<lparr>store := \<sigma>\<rparr>) = (p, st1)"
    by (cases "createParser opts this (JFile f) settings (st\<lparr>store := \<sigma>\<rparr>)")
  obtain r \<sigma>1 where pp: "pc_parse (po_class p) (po_file p) (po_settings p) (po_proc p) (store st1) = (r, \<sigma>1)"
    by (cases "pc_parse (po_class p) (po_file p) (po_settings p) (po_proc p) (store st1)")
  from cp instance_of_trace [of opts this "st\<lparr>store := \<sigma>, store := \<sigma>\<rparr>"]
  have tr: "trace st1 = trace st"
    by (auto simp add: createParser_def new_VFile_def split: prod.splits)
  show ?thesis
  proof (cases "this = RUndefined")
    case True
    then show ?thesis using nv by (simp add: parse_def)
  next
    case False
    then have "trace (snd (parse opts this v settings st)) = trace st @ [Parsed (pc_id (po_class p))]"
      using nv cp pp tr by (cases this; cases r) (simp_all add: parse_def)
    then show ?thesis by simp
  qed
qed

lemma process_ctx_file:
  assumes "process_ctx opts this v settings st = (c0, st0)"
  shows "c_file c0 = (case v of JFile a \<Rightarrow> JFile a | JStr s \<Rightarrow> JFile (next_file (store st))
                       | _ \<Rightarrow> JUndefined)"
    and "c_tree c0 = (if is_string v \<or> is_VFile v then JUndefined else v)"
    and "trace st0 = trace st"
proof -
  obtain self st1 where i: "instance_of opts this st = (self, st1)"
    by (cases "instance_of opts this st")
  have nf: "next_file (store st1) = next_file (store st)" and tr: "trace st1 = trace st"
    using i by (cases this; auto simp add: instance_of_def ctor_defs)+
  obtain s1 \<sigma>1 where s: "(if truthy settings then (settings, store st1) else new_object (store st1)) = (s1, \<sigma>1)"
    by (cases "if truthy settings then (settings, store st1) else new_object (store st1)")
  have nf1: "next_file \<sigma>1 = next_file (store st)"
    using s nf by (auto simp add: new_object_def split: if_splits)
  show "c_file c0 = (case v of JFile a \<Rightarrow> JFile a | JStr s \<Rightarrow> JFile (next_file (store st))
                       | _ \<Rightarrow> JUndefined)"
    using assms i s nf1 by (cases v) (auto simp add: process_ctx_def new_VFile_def Let_def)
  show "c_tree c0 = (if is_string v \<or> is_VFile v then JUndefined else v)"
    using assms i s by (cases v) (auto simp add: process_ctx_def new_VFile_def Let_def)
  show "trace st0 = trace st"
    using assms i s tr by (cases v) (auto simp add: process_ctx_def new_VFile_def Let_def)
qed

lemma pipeline_parse_ctx:
  "pipeline_parse opts c st = (r, c1, st1) \<Longrightarrow>
     c_file c1 = c_file c \<and> c_context c1 = c_context c \<and> c_settings c1 = c_settings c \<and>
     c_result c1 = c_result c"
  by (auto simp add: pipeline_parse_def split: if_splits prod.splits result.splits promise.splits)

lemma pipeline_transform_ctx:
  "pipeline_transform opts c st = (r, c1, st1) \<Longrightarrow> c1 = c"
  by (auto simp add: pipeline_transform_def
        split: prod.splits result.splits option.splits cb_args.splits)

lemma pipeline_stringify_ctx:
  "pipeline_stringify opts c st = (r, c1, st1) \<Longrightarrow>
     c_file c1 = c_file c \<and> c_context c1 = c_context c \<and> c_settings c1 = c_settings c \<and>
     c_tree c1 = c_tree c"
  by (auto simp add: pipeline_stringify_def split: prod.splits result.splits)

lemma pipeline_run_steps:
  assumes p: "pipeline_parse opts c0 st0 = (o1, c1, st1)"
      and t: "pipeline_transform opts c1 st1 = (o2, c2, st2)"
      and s: "pipeline_stringify opts c2 st2 = (o3, c3, st3)"
  shows "pipeline_run (pipeline opts) c0 st0 =
           (case o1 of None \<Rightarrow> (None, st1) | Some e1 \<Rightarrow>
              if truthy e1 then (Some (e1, c1), st1) else
           (case o2 of None \<Rightarrow> (None, st2) | Some e2 \<Rightarrow>
              if truthy e2 then (Some (e2, c2), st2) else
           (case o3 of None \<Rightarrow> (None, st3) | Some e3 \<Rightarrow>
              if truthy e3 then (Some (e3, c3), st3) else (Some (JNull, c3), st3))))"
  using p t s by (simp add: pipeline_def split: option.splits)

lemma process_steps:
  assumes ctx: "process_ctx opts this v settings st = (c0, st0)"
      and p: "pipeline_parse opts c0 st0 = (o1, c1, st1)"
      and t: "pipeline_transform opts c1 st1 = (o2, c2, st2)"
      and s: "pipeline_stringify opts c2 st2 = (o3, c3, st3)"
  shows "process opts this v settings st =
           (case o1 of None \<Rightarrow> (Pending, st1) | Some e1 \<Rightarrow>
              if truthy e1 then (Rejected e1, st1) else
           (case o2 of None \<Rightarrow> (Pending, st2) | Some e2 \<Rightarrow>
              if truthy e2 then (Rejected e2, st2) else
           (case o3 of None \<Rightarrow> (Pending, st3) | Some e3 \<Rightarrow>
              if truthy e3 then (Rejected e3, st3)
              else (Resolved (c_file c0, c_result c3), st3))))"
proof -
  from pipeline_parse_ctx [OF p] pipeline_transform_ctx [OF t] pipeline_stringify_ctx [OF s]
  have same: "c_file c3 = c_file c0" by simp
  show ?thesis
    by (simp add: process_def ctx pipeline_run_steps [OF p t s] same split: option.splits)
qed

lemma pipeline_parse_trace:
  assumes "pipeline_parse opts c st = (r, c1, st1)"
  shows "\<exists>evs. trace st1 = trace st @ evs \<and> (\<forall>k. Compiled k \<notin> set evs)"
proof (cases "truthy (c_tree c)")
  case True
  with assms show ?thesis by (simp add: pipeline_parse_def)
next
  case False
  with assms have "st1 = snd (parse opts (RInst (c_context c)) (c_file c) (c_settings c) st)"
    by (auto simp add: pipeline_parse_def split: prod.splits result.splits promise.splits)
  with parse_trace [of opts "RInst (c_context c)" "c_file c" "c_settings c" st]
  show ?thesis by simp
qed

lemma process_ctx_inst:
  assumes "process_ctx opts (RInst a) v settings st = (c0, st0)"
  shows "c_context c0 = a" and "procs st0 = procs st"
  using assms
  by (auto simp add: process_ctx_def instance_of_def case_prod_beta split: if_splits)

lemma pipeline_parse_procs:
  assumes "pipeline_parse opts c st = (r, c1, st1)"
  shows "procs st1 = procs st"
proof (cases "truthy (c_tree c)")
  case True
  with assms show ?thesis by (simp add: pipeline_parse_def)
next
  case False
  with assms have s: "st1 = snd (parse opts (RInst (c_context c)) (c_file c) (c_settings c) st)"
    by (auto simp add: pipeline_parse_def split: prod.splits result.splits promise.splits)
  show ?thesis unfolding s
    by (simp add: parse_def createParser_def instance_of_def case_prod_beta new_VFile_def
          split: promise.splits jsval.splits)
qed

text \<open>
  C3 (as amended): for every call \<open>stringify(node, file)\<close> whose settings argument is
  absent (null or undefined), the would-be file argument is taken as the settings and no
  file is left: the tree is resolved against no file, and the Compiler is built with the
  resolved carrier file, the would-be file as its settings and the instance; its
  synchronous \<open>compile()\<close> result is returned directly. Resolution against no file: a
  truthy first argument with a \<open>type\<close> is the tree and fills the slot of a new empty
  carrier file; a truthy first argument without \<open>type\<close> is taken as the file and the tree
  is that file's slot, or else the error "Expected node" (got null) is thrown; a falsy
  first argument throws "Expected node".
\<close>

theorem stringify_without_settings:
  assumes "settings = JNull \<or> settings = JUndefined"
  shows "(let r = resolve_node (name opts) node JNull (store st);
              node1 = fst r; f = fst (snd r); \<sigma> = snd (snd r);
              self = instance_of opts this (st\<lparr>store := \<sigma>\<rparr>);
              C = (case this of RInst a \<Rightarrow> Compiler (procs st a) | _ \<Rightarrow> opt_Compiler opts)
          in fst (stringify opts this node fl settings st) =
               (if \<not> truthy node1 then Threw (JExpectedNode node1)
                else fst (cc_compile C (JFile f) fl (JProc (fst self)) (store (snd self)))) \<and>
             (truthy node \<and> truthy (get_prop (store st) node ''type'') \<longrightarrow>
                node1 = node \<and> f = next_file (store st) \<and> tree_slot \<sigma> f (name opts) = node) \<and>
             (truthy node \<and> \<not> truthy (get_prop (store st) node ''type'') \<longrightarrow>
                f = fst (new_VFile node (store st)) \<and>
                node1 = (if truthy (tree_slot \<sigma> f (name opts))
                         then tree_slot \<sigma> f (name opts) else JNull)) \<and>
             (\<not> truthy node \<longrightarrow> node1 = node))"
proof -
  obtain node1 f \<sigma> where r: "resolve_node (name opts) node JNull (store st) = (node1, f, \<sigma>)"
    by (cases "resolve_node (name opts) node JNull (store st)")
  have n: "\<not> truthy JNull" by simp
  from resolve_node_absent_file [OF n, of node "store st" "name opts"] r
  have facts:
    "truthy node \<and> truthy (get_prop (store st) node ''type'') \<longrightarrow>
       node1 = node \<and> f = next_file (store st) \<and> tree_slot \<sigma> f (name opts) = node"
    "truthy node \<and> \<not> truthy (get_prop (store st) node ''type'') \<longrightarrow>
       f = fst (new_VFile node (store st)) \<and>
       node1 = (if truthy (tree_slot \<sigma> f (name opts)) then tree_slot \<sigma> f (name opts) else JNull)"
    "\<not> truthy node \<longrightarrow> node1 = node"
    by auto
  have out: "fst (stringify opts this node fl settings st) =
               (if \<not> truthy node1 then Threw (JExpectedNode node1)
                else fst (cc_compile (case this of RInst a \<Rightarrow> Compiler (procs st a) | _ \<Rightarrow> opt_Compiler opts)
                            (JFile f) fl (JProc (fst (instance_of opts this (st\<lparr>store := \<sigma>\<rparr>))))
                            (store (snd (instance_of opts this (st\<lparr>store := \<sigma>\<rparr>))))))"
    using assms r by (auto simp add: stringify_def case_prod_beta)
  from out facts show ?thesis by (auto simp add: Let_def r)
qed

text \<open>
  The theorem at \<open>stringify(tree, file)\<close> on instance 0 of \<open>parsed_state\<close>: the
  Compiler gets the new file 1, and file 0 as its settings.
\<close>

theorem stringify_without_settings_witness:
  "(JUndefined = JNull \<or> JUndefined = JUndefined) \<and>
   fst (stringify demo_options (RInst 0) (JObj 0) (JFile 0) JUndefined parsed_state)
     = fst (cc_compile (Compiler (procs parsed_state 0)) (JFile 1) (JFile 0) (JProc 0)
              (snd (snd (resolve_node (name demo_options) (JObj 0) JNull (store parsed_state))))) \<and>
   fst (stringify demo_options (RInst 0) (JObj 0) (JFile 0) JUndefined parsed_state)
     = Returned (JStr ''0'')"
proof -
  have h: "JUndefined = JNull \<or> JUndefined = JUndefined" by simp
  from stringify_without_settings [OF h, of demo_options "JObj 0" parsed_state "RInst 0" "JFile 0"]
  show ?thesis
    by (simp add: Let_def instance_of_def parsed_state_facts parsed_state_classes
          zero_compile_def)
qed

text \<open>
  C3 as stated fails: in \<open>parsed_state\<close> the slot of file 0 holds a tree, yet
  \<open>stringify(null, file)\<close> without settings does not use it; the file has become the
  settings, and the call throws "Expected node".
\<close>

theorem stringify_file_taken_as_settings:
  "truthy (tree_slot (store parsed_state) 0 (name demo_options)) \<and>
   fst (stringify demo_options (RInst 0) JNull (JFile 0) JUndefined parsed_state)
     = Threw (JExpectedNode JNull)"
  by (simp add: stringify_def resolve_node_def new_VFile_def tree_slot_def parsed_state_facts
        ready_state_facts Let_def)
     (simp add: parsed_state_def parse_def createParser_def new_VFile_def instance_of_def
          ctor_defs demo_defs set_tree_slot_def)

text \<open>
  C4 (as amended): \<open>process(input, settings)\<close> records a carrier file in its context
  only for a string (a new carrier file) or a carrier file (that file itself); any other
  value is recorded as the tree, and the context's file stays undefined. The promise then
  follows the three steps: it rejects with the first error a step reports (and carries no
  result then), stays pending when a step never completes, and otherwise resolves with
  the pair of the context's file, hence undefined for an input that is neither a string
  nor a carrier file, and the result stored by the stringify step, which is what
  \<open>stringify\<close> returned.
\<close>

theorem process_outcome:
  assumes ctx: "process_ctx opts this v settings st = (c0, st0)"
      and p: "pipeline_parse opts c0 st0 = (o1, c1, st1)"
      and t: "pipeline_transform opts c1 st1 = (o2, c2, st2)"
      and s: "pipeline_stringify opts c2 st2 = (o3, c3, st3)"
  shows "c_file c0 = (case v of JFile a \<Rightarrow> JFile a | JStr s \<Rightarrow> JFile (next_file (store st))
                       | _ \<Rightarrow> JUndefined) \<and>
         c_tree c0 = (if is_string v \<or> is_VFile v then JUndefined else v) \<and>
         process opts this v settings st =
           (case o1 of None \<Rightarrow> (Pending, st1) | Some e1 \<Rightarrow>
              if truthy e1 then (Rejected e1, st1) else
           (case o2 of None \<Rightarrow> (Pending, st2) | Some e2 \<Rightarrow>
              if truthy e2 then (Rejected e2, st2) else
           (case o3 of None \<Rightarrow> (Pending, st3) | Some e3 \<Rightarrow>
              if truthy e3 then (Rejected e3, st3)
              else (Resolved (c_file c0, c_result c3), st3)))) \<and>
         (\<forall>res st'. stringify opts (RInst (c_context c0)) (c_tree c2) (c_file c0) (c_settings c0) st2
                       = (Returned res, st') \<longrightarrow>
              o3 = Some JNull \<and> c_result c3 = res \<and> st3 = st')"
proof -
  from pipeline_parse_ctx [OF p] pipeline_transform_ctx [OF t]
  have same: "c_file c2 = c_file c0" "c_context c2 = c_context c0" "c_settings c2 = c_settings c0"
    by simp_all
  have res: "\<And>res st'. stringify opts (RInst (c_context c0)) (c_tree c2) (c_file c0) (c_settings c0) st2
                       = (Returned res, st') \<Longrightarrow>
              o3 = Some JNull \<and> c_result c3 = res \<and> st3 = st'"
    using s same by (auto simp add: pipeline_stringify_def)
  from process_ctx_file(1,2) [OF ctx] process_steps [OF ctx p t s] res show ?thesis by blast
qed

text \<open>The theorem at \<open>process('x')\<close> on instance 0 of \<open>ready_state\<close>.\<close>

theorem process_outcome_witness:
  "fst (process demo_options (RInst 0) (JStr ''x'') JUndefined ready_state)
     = Resolved (JFile 1, JStr ''0'') \<and>
   c_file (fst (process_ctx demo_options (RInst 0) (JStr ''x'') JUndefined ready_state)) = JFile 1"
proof -
  let ?ctx = "process_ctx demo_options (RInst 0) (JStr ''x'') JUndefined ready_state"
  let ?p = "pipeline_parse demo_options (fst ?ctx) (snd ?ctx)"
  let ?t = "pipeline_transform demo_options (fst (snd ?p)) (snd (snd ?p))"
  let ?s = "pipeline_stringify demo_options (fst (snd ?t)) (snd (snd ?t))"
  have ctx: "?ctx = (fst ?ctx, snd ?ctx)" by simp
  have p: "?p = (fst ?p, fst (snd ?p), snd (snd ?p))" by simp
  have t: "?t = (fst ?t, fst (snd ?t), snd (snd ?t))" by simp
  have s: "?s = (fst ?s, fst (snd ?s), snd (snd ?s))" by simp
  have direct: "fst (process demo_options (RInst 0) (JStr ''x'') JUndefined ready_state)
     = Resolved (JFile 1, JStr ''0'')"
    by (simp add: pipe_defs run_defs ctor_defs ready_state_facts ready_state_classes
        demo_options_def zero_compile_def root_parse_def passing_def Let_def)
  from process_outcome [OF ctx p t s]
  have "c_file (fst ?ctx) = JFile (next_file (store ready_state))" by simp
  with direct show ?thesis by (simp add: ready_state_facts)
qed

text \<open>
  C4 as stated fails: \<open>Processor.process(tree)\<close> with the node \<open>{type: 'root'}\<close>
  resolves with \<open>file\<close> undefined, not with a carrier file.
\<close>

theorem process_tree_has_no_file:
  "fst (process demo_options RClass (JObj 0) JUndefined ready_state)
     = Resolved (JUndefined, JStr ''0'')"
  by (simp add: pipe_defs run_defs ctor_defs ready_state_facts ready_state_classes
        demo_options_def zero_compile_def Let_def)

text \<open>
  C7: let \<open>process\<close> be called on an instance whose registry is \<open>pre @ b # post\<close>, let
  the parse step pass and the transform step resolve a tree, let the transformers of
  \<open>pre\<close> run to completion on that tree and file, and let \<open>b\<close>, called next, report the
  error \<open>e\<close>. Then \<open>run\<close> hands \<open>e\<close> to its callback, the pipeline stops there, and the
  promise rejects with that same \<open>e\<close>, which carries no file and no result. The state is
  the one \<open>b\<close> left: no transformer of \<open>post\<close> and no Compiler has been called, so the
  stringify step never ran. (On a receiver that is not an instance the registry of the
  new instance is empty, and no transformer can report anything.)
\<close>

theorem transformer_error_rejects:
  assumes ctx: "process_ctx opts (RInst a) v settings st = (c0, st0)"
      and p: "pipeline_parse opts c0 st0 = (Some e0, c1, st1)"
      and ok: "\<not> truthy e0"
      and res: "resolve_node (name opts) (c_tree c1) (c_file c1) (store st1) = (node1, f, \<sigma>0)"
      and tree: "truthy node1"
      and reg: "fns (ware (procs st a)) = pre @ b # post"
      and before: "ware_run pre node1 (JFile f) (st1\<lparr>store := \<sigma>0\<rparr>)
                     = (Some (CbDone node1 (JFile f)), sb)"
      and fails: "t_fn b node1 (JFile f) (store sb) = (Fail e, \<sigma>b)"
      and err: "truthy e"
  shows "process opts (RInst a) v settings st =
           (Rejected e, sb\<lparr>store := \<sigma>b, trace := trace sb @ [Transformed (t_id b)]\<rparr>) \<and>
         (\<exists>evs. trace sb = trace st @ evs \<and> (\<forall>k. Compiled k \<notin> set evs))"
proof -
  let ?st2 = "sb\<lparr>store := \<sigma>b, trace := trace sb @ [Transformed (t_id b)]\<rparr>"
  from pipeline_parse_ctx [OF p] process_ctx_inst [OF ctx]
  have c1: "c_context c1 = a" "c_file c1 = c_file c0" by simp_all
  from pipeline_parse_procs [OF p] process_ctx_inst(2) [OF ctx] reg
  have reg1: "fns (ware (procs st1 a)) = pre @ b # post" by simp
  from process_ctx_file(1) [OF ctx] have "\<not> is_function (c_file c0)"
    by (cases v) simp_all
  then have args: "run_args (c_file c0) (JFunc 0) = (c_file c0, JFunc 0)"
    by (simp add: run_args_def)
  from res c1 have res0:
    "resolve_node (name opts) (c_tree c1) (c_file c0) (store st1) = (node1, f, \<sigma>0)"
    by simp
  from ware_run_first_error [OF before fails err, of post]
  have w: "ware_run (fns (ware (procs st1 a))) node1 (JFile f) (st1\<lparr>store := \<sigma>0\<rparr>)
             = (Some (CbError e), ?st2)"
    by (simp add: reg1)
  have r: "run opts (RInst (c_context c1)) (c_tree c1) (c_file c1) (JFunc 0) st1
             = ((Returned node1, Some (CbError e)), ?st2)"
    using tree by (simp add: run_def args res0 c1 w call_done_def)
  then have t: "pipeline_transform opts c1 st1 = (Some e, c1, ?st2)"
    by (simp add: pipeline_transform_def)
  obtain o3 c3 st3 where s: "pipeline_stringify opts c1 ?st2 = (o3, c3, st3)"
    by (cases "pipeline_stringify opts c1 ?st2")
  from process_steps [OF ctx p t s] ok err
  have out: "process opts (RInst a) v settings st = (Rejected e, ?st2)" by simp
  from pipeline_parse_trace [OF p] obtain evs
    where tr1: "trace st1 = trace st0 @ evs" and nc: "\<forall>k. Compiled k \<notin> set evs"
    by blast
  from ware_run_trace [of pre node1 "JFile f" "st1\<lparr>store := \<sigma>0\<rparr>"] before obtain ks
    where tr2: "trace sb = trace st1 @ map Transformed ks"
    by auto
  from process_ctx_file(3) [OF ctx] tr1 tr2
  have "trace sb = trace st @ (evs @ map Transformed ks)" by simp
  moreover from nc have "\<forall>k. Compiled k \<notin> set (evs @ map Transformed ks)" by auto
  ultimately have "\<exists>evs. trace sb = trace st @ evs \<and> (\<forall>k. Compiled k \<notin> set evs)" by blast
  with out show ?thesis by simp
qed

text \<open>
  The theorem at \<open>process('x')\<close> on instance 0 of \<open>failing_state\<close>, whose second
  transformer reports the object \<open>JObj 9\<close>.
\<close>

theorem transformer_error_rejects_witness:
  "fns (ware (procs failing_state 0)) = [passing 1] @ failing 2 (JObj 9) # [] \<and>
   truthy (JObj 9) \<and>
   fst (process demo_options (RInst 0) (JStr ''x'') JUndefined failing_state) = Rejected (JObj 9) \<and>
   trace (snd (process demo_options (RInst 0) (JStr ''x'') JUndefined failing_state))
     = [Parsed 2, Transformed 1, Transformed 2]"
proof -
  let ?ctx = "process_ctx demo_options (RInst 0) (JStr ''x'') JUndefined failing_state"
  let ?p = "pipeline_parse demo_options (fst ?ctx) (snd ?ctx)"
  let ?c1 = "fst (snd ?p)"
  let ?st1 = "snd (snd ?p)"
  let ?r = "resolve_node (name demo_options) (c_tree ?c1) (c_file ?c1) (store ?st1)"
  let ?sb = "?st1\<lparr>store := snd (snd ?r), trace := trace ?st1 @ [Transformed 1]\<rparr>"
  have ctx: "?ctx = (fst ?ctx, snd ?ctx)" by simp
  have p1: "fst ?p = Some JNull" and tr1: "trace ?st1 = [Parsed 2]"
    by (simp_all add: pipe_defs run_defs ctor_defs failing_state_facts
        demo_options_def root_parse_def Let_def)
  have p: "?p = (Some JNull, ?c1, ?st1)"
    using p1 by (metis prod.collapse)
  have ok: "\<not> truthy JNull" by simp
  have n1: "fst ?r = JObj 2" and f1: "fst (snd ?r) = 1"
    by (simp_all add: pipe_defs run_defs ctor_defs failing_state_facts
        demo_options_def root_parse_def Let_def)
  have res: "?r = (JObj 2, 1, snd (snd ?r))"
    using n1 f1 by (metis prod.collapse)
  have tree: "truthy (JObj 2)" by simp
  have reg: "fns (ware (procs failing_state 0)) = [passing 1] @ failing 2 (JObj 9) # []"
    by (simp add: failing_state_facts)
  have before: "ware_run [passing 1] (JObj 2) (JFile 1) (?st1\<lparr>store := snd (snd ?r)\<rparr>)
                  = (Some (CbDone (JObj 2) (JFile 1)), ?sb)"
    by (simp add: passing_def)
  have fails: "t_fn (failing 2 (JObj 9)) (JObj 2) (JFile 1) (store ?sb) = (Fail (JObj 9), store ?sb)"
    by (simp add: failing_def)
  have err: "truthy (JObj 9)" by simp
  from transformer_error_rejects [OF ctx p ok res tree reg before fails err] reg err tr1
  show ?thesis by (simp add: failing_def)
qed

text \<open>
  C8: \<open>parse(input, settings)\<close> on the class or an instance normalises the input into
  a carrier file, builds a parser of the receiver's own Parser class (the family's for the
  bare class) and returns that parser's promise as it settles: a rejection of the Parser
  is the rejection of \<open>parse\<close>, unchanged, and when the Parser resolves with a tree,
  \<open>parse\<close> resolves with that tree and the namespace slot of the carrier file holds it,
  whatever the slot held before.
\<close>

theorem parse_attaches_tree:
  assumes "this \<noteq> RUndefined"
  shows "(let f = fst (new_VFile v (store st));
              po = createParser opts this (JFile f) settings (st\<lparr>store := snd (new_VFile v (store st))\<rparr>);
              pr = pc_parse (po_class (fst po)) (JFile f) settings (po_proc (fst po)) (store (snd po));
              out = parse opts this v settings st
          in po_class (fst po) = (case this of RInst a \<Rightarrow> Parser (procs st a) | _ \<Rightarrow> opt_Parser opts) \<and>
             fst out = Returned (fst pr) \<and>
             (\<forall>tree. fst pr = Resolved tree \<longrightarrow>
                tree_slot (store (snd out)) f (name opts) = tree))"
proof -
  obtain f \<sigma> where nv: "new_VFile v (store st) = (f, \<sigma>)" by (cases "new_VFile v (store st)")
  obtain p st1 where cp: "createParser opts this (JFile f) settings (st\<lparr>store := \<sigma>\<rparr>) = (p, st1)"
    by (cases "createParser opts this (JFile f) settings (st\<lparr>store := \<sigma>\<rparr>)")
  obtain r \<sigma>1 where pp: "pc_parse (po_class p) (po_file p) (po_settings p) (po_proc p) (store st1) = (r, \<sigma>1)"
    by (cases "pc_parse (po_class p) (po_file p) (po_settings p) (po_proc p) (store st1)")
  have fields: "po_file p = JFile f" "po_settings p = settings"
    "po_class p = (case this of RInst a \<Rightarrow> Parser (procs st a) | _ \<Rightarrow> opt_Parser opts)"
    using cp by (cases this; auto simp add: createParser_def new_VFile_def split: prod.splits)+
  have out: "parse opts this v settings st =
         (Returned r, st1\<lparr>store := (case r of Resolved node \<Rightarrow> set_tree_slot \<sigma>1 f (name opts) node | _ \<Rightarrow> \<sigma>1),
                            trace := trace st1 @ [Parsed (pc_id (po_class p))]\<rparr>)"
    using assms nv cp pp by (cases this; cases r) (simp_all add: parse_def)
  show ?thesis
    using pp by (simp add: Let_def nv cp out fields)
qed

text \<open>
  The theorem at instance 0 and file 0 of \<open>parsed_state\<close>, whose slot already holds the
  tree \<open>JObj 0\<close>: after the call it holds the new tree \<open>JObj 1\<close>.
\<close>

theorem parse_attaches_tree_witness:
  "RInst 0 \<noteq> RUndefined \<and>
   tree_slot (store parsed_state) 0 (name demo_options) = JObj 0 \<and>
   fst (parse demo_options (RInst 0) (JFile 0) JUndefined parsed_state) = Returned (Resolved (JObj 1)) \<and>
   tree_slot (store (snd (parse demo_options (RInst 0) (JFile 0) JUndefined parsed_state))) 0
     (name demo_options) = JObj 1"
proof -
  have h: "RInst 0 \<noteq> RUndefined" by simp
  have nv: "new_VFile (JFile 0) (store parsed_state) = (0, store parsed_state)"
    by (simp add: new_VFile_def)
  from parse_attaches_tree [OF h, of "JFile 0" parsed_state demo_options JUndefined]
  show ?thesis
    by (simp add: Let_def nv createParser_def instance_of_def parsed_state_facts
          ready_state_facts parsed_state_classes root_parse_def)
qed

end
